theory Spec2Isabelle
  imports Complex_Main "HOL-Library.Sublist" "HOL-Library.Char_ord" "HOL-Library.List_Lexorder"
begin

section \<open>The PDF folder merger (pdf_folder_merger_tk.py)\<close>

text \<open>
  The theory embeds the pagination core of \<^verbatim>\<open>pdf_folder_merger_tk.py\<close>: the folder
  listing, the table-of-contents layout \<^verbatim>\<open>_build_toc_pdf_bytes\<close>, the overlay
  stamper \<^verbatim>\<open>_stamp_header_footer_on_writer\<close> and the driver
  \<^verbatim>\<open>merge_pdfs_with_toc\<close>.

  Conventions. Python integers are \<open>int\<close>. Lengths in points are floats in the source
  (\<^verbatim>\<open>pagesize=(612.0, 792.0)\<close>, \<^verbatim>\<open>float(page.mediabox.width)\<close>). The geometry
  of the TOC holds whole numbers of points; lengths are modelled as \<open>int\<close>, with
  Python's floor division \<^verbatim>\<open>//\<close> as \<open>div\<close>, so a source page whose size is not a
  whole number of points (A4 is 595.276 by 841.89) has no counterpart here. Strings
  are byte strings: \<open>lower\<close>, \<open>strip\<close> and \<open>length\<close> agree with Python's
  \<^verbatim>\<open>str.lower\<close>, \<^verbatim>\<open>str.strip\<close> and \<^verbatim>\<open>len\<close> on ASCII strings and are not
  modelled beyond them. The properties proved below are about page counts, start
  pages, footer texts and failures; none of them depends on the order of the listing,
  on the text of the header or of a label, or on a page size being whole. The bytes
  that reportlab writes are modelled by what they are made from: the page size and the
  sequence of drawing calls issued on the canvas before each \<^verbatim>\<open>showPage\<close>.
  Exceptions are values of the type \<open>error\<close>.
\<close>

subsection \<open>Errors, drawing operations, pages\<close>

datatype error =
    ValueError string
  | RuntimeError string
  | ZeroDivisionError
  | PdfReadError string

datatype draw_op =
    SetFont string int
  | DrawString int int string
  | DrawRightString int int string

record page =
  width :: int
  height :: int
  content :: "draw_op list"

subsection \<open>Python's \<^verbatim>\<open>str\<close> on integers\<close>

definition digit_char :: "nat \<Rightarrow> char" where
  "digit_char d = ''0123456789'' ! d"

function str_nat :: "nat \<Rightarrow> string" where
  "str_nat n = (if n < 10 then [digit_char n] else str_nat (n div 10) @ [digit_char (n mod 10)])"
  by pat_completeness auto
termination
  by (relation "measure id") auto

declare str_nat.simps [simp del]

definition str_int :: "int \<Rightarrow> string" where
  "str_int i = (if i < 0 then CHR ''-'' # str_nat (nat (- i)) else str_nat (nat i))"

subsection \<open>The TOC layout: \<^verbatim>\<open>_build_toc_pdf_bytes\<close>\<close>

text \<open>
  The keyword parameters of \<^verbatim>\<open>_build_toc_pdf_bytes\<close> form the geometry; the
  defaults of the source are \<open>default_geometry\<close>.
\<close>

record geometry =
  title :: string
  pagesize_w :: int
  pagesize_h :: int
  left_margin :: int
  top_margin :: int
  bottom_margin :: int
  font_name :: string
  font_size :: int
  line_gap :: int

definition default_geometry :: geometry where
  "default_geometry =
     \<lparr>title = ''Table of Contents'', pagesize_w = 612, pagesize_h = 792, left_margin = 54,
      top_margin = 54, bottom_margin = 54, font_name = ''Helvetica'', font_size = 11,
      line_gap = 3\<rparr>"

definition usable_h :: "geometry \<Rightarrow> int" where
  "usable_h g = pagesize_h g - top_margin g - bottom_margin g"

definition line_h :: "geometry \<Rightarrow> int" where
  "line_h g = font_size g + line_gap g"

definition title_font :: int where
  "title_font = 16"

definition title_gap :: int where
  "title_gap = 18"

definition header_space :: "geometry \<Rightarrow> int" where
  "header_space g = title_gap + 2 * line_h g"

text \<open>
  Line 89: \<^verbatim>\<open>lines_per_page = max(1, int((usable_h - header_space) // line_h))\<close>.
  The division raises \<^verbatim>\<open>ZeroDivisionError\<close> when \<^verbatim>\<open>line_h\<close> is zero.
\<close>

definition lines_per_page :: "geometry \<Rightarrow> error + int" where
  "lines_per_page g =
     (if line_h g = 0 then Inl ZeroDivisionError
      else Inr (max 1 ((usable_h g - header_space g) div line_h g)))"

text \<open>Lines 91-92; \<open>lpp\<close> is at least 1 here, so the division cannot fail.\<close>

definition toc_page_count :: "int \<Rightarrow> (string \<times> int) list \<Rightarrow> int" where
  "toc_page_count lpp entries =
     max 1 ((int (length entries) + (lpp - 1)) div lpp)"

definition max_chars :: nat where
  "max_chars = 95"

definition disp :: "string \<Rightarrow> string" where
  "disp name = (if length name \<le> max_chars then name else take (max_chars - 3) name @ ''...'')"

text \<open>The body of the \<^verbatim>\<open>for name, pg in entries[start:end]\<close> loop, lines 108-119.\<close>

fun draw_entries :: "geometry \<Rightarrow> int \<Rightarrow> (string \<times> int) list \<Rightarrow> draw_op list" where
  "draw_entries g y [] = []"
| "draw_entries g y ((name, pg) # rest) =
     (let dots_start_x = left_margin g + 320;
          dots_end_x = pagesize_w g - left_margin g - 40
      in [DrawString (left_margin g) y (disp name)]
         @ (if dots_end_x > dots_start_x then [DrawString dots_start_x y (replicate 60 CHR ''.'')] else [])
         @ [DrawRightString (pagesize_w g - left_margin g) y (str_int pg)]
         @ draw_entries g (y - line_h g) rest)"

text \<open>
  \<^verbatim>\<open>entries[start:end]\<close> with \<^verbatim>\<open>start = page_idx * lines_per_page\<close> and
  \<^verbatim>\<open>end = min(len(entries), start + lines_per_page)\<close>; both are non-negative, and a
  slice whose end is before its start is empty.
\<close>

definition page_slice :: "int \<Rightarrow> (string \<times> int) list \<Rightarrow> int \<Rightarrow> (string \<times> int) list" where
  "page_slice lpp entries page_idx =
     (let start = page_idx * lpp;
          end = min (int (length entries)) (start + lpp)
      in take (nat (end - start)) (drop (nat start) entries))"

definition draw_page :: "geometry \<Rightarrow> int \<Rightarrow> (string \<times> int) list \<Rightarrow> int \<Rightarrow> draw_op list" where
  "draw_page g lpp entries page_idx =
     [SetFont (font_name g) title_font,
      DrawString (left_margin g) (pagesize_h g - top_margin g) (title g),
      SetFont (font_name g) 9,
      DrawString (left_margin g) (pagesize_h g - top_margin g - title_gap)
        ''Merged PDF contents (file start pages):'',
      SetFont (font_name g) (font_size g)]
     @ draw_entries g (pagesize_h g - top_margin g - title_gap - (line_h g + 6))
         (page_slice lpp entries page_idx)"

definition toc_page :: "geometry \<Rightarrow> int \<Rightarrow> (string \<times> int) list \<Rightarrow> nat \<Rightarrow> page" where
  "toc_page g lpp entries i =
     \<lparr>width = pagesize_w g, height = pagesize_h g, content = draw_page g lpp entries (int i)\<rparr>"

text \<open>
  The result pair of the source is (bytes, page count); the bytes are the pages drawn by
  \<^verbatim>\<open>for i in range(toc_pages): draw_page(i)\<close>.
\<close>

definition build_toc_pdf_bytes :: "geometry \<Rightarrow> (string \<times> int) list \<Rightarrow> error + (page list \<times> int)" where
  "build_toc_pdf_bytes g entries =
     (case lines_per_page g of
        Inl e \<Rightarrow> Inl e
      | Inr lpp \<Rightarrow>
          (let toc_pages = toc_page_count lpp entries
           in Inr (map (toc_page g lpp entries) [0..<nat toc_pages], toc_pages)))"

text \<open>The number of entry lines on a rendered page: each entry draws its page number once,
  right-aligned, and nothing else on a page is right-aligned.\<close>

fun is_right_string :: "draw_op \<Rightarrow> bool" where
  "is_right_string (DrawRightString x y s) = True"
| "is_right_string _ = False"

definition entry_lines :: "page \<Rightarrow> nat" where
  "entry_lines p = length (filter is_right_string (content p))"

subsection \<open>Paths and the folder listing\<close>

text \<open>
  Strings are byte strings here, so \<^verbatim>\<open>str.lower\<close> is modelled on the ASCII letters.
  Paths follow \<^verbatim>\<open>posixpath\<close>: the separator is \<open>/\<close>.
\<close>

definition lower_char :: "char \<Rightarrow> char" where
  "lower_char c =
     (case map_of (zip ''ABCDEFGHIJKLMNOPQRSTUVWXYZ'' ''abcdefghijklmnopqrstuvwxyz'') c of
        None \<Rightarrow> c
      | Some d \<Rightarrow> d)"

definition lower :: "string \<Rightarrow> string" where
  "lower s = map lower_char s"

definition is_pdf :: "string \<Rightarrow> bool" where
  "is_pdf path = suffix ''.pdf'' (lower path)"

definition basename :: "string \<Rightarrow> string" where
  "basename p = rev (takeWhile (\<lambda>c. c \<noteq> CHR ''/'') (rev p))"

definition path_join :: "string \<Rightarrow> string \<Rightarrow> string" where
  "path_join a b =
     (if b \<noteq> [] \<and> hd b = CHR ''/'' then b
      else if a = [] \<or> last a = CHR ''/'' then a @ b
      else a @ ''/'' @ b)"

definition safe_basename :: "string \<Rightarrow> string" where
  "safe_basename path = basename path"

text \<open>
  What the run reads from outside the program. \<open>listdir\<close> is \<open>None\<close> when
  \<^verbatim>\<open>os.listdir\<close> raises; \<open>PdfReader\<close> is \<open>Inl msg\<close> when pypdf cannot open or
  parse the file, and the list of its pages otherwise; \<open>merge_page\<close> is \<open>None\<close> when
  pypdf's \<^verbatim>\<open>page.merge_page\<close> raises, and the merged page otherwise;
  \<open>add_outline_item\<close> is \<open>False\<close> when \<^verbatim>\<open>writer.add_outline_item\<close> raises.
\<close>

record world =
  listdir :: "string \<Rightarrow> string list option"
  isfile :: "string \<Rightarrow> bool"
  PdfReader :: "string \<Rightarrow> string + page list"
  merge_page :: "page \<Rightarrow> page \<Rightarrow> page option"
  add_outline_item :: "string \<Rightarrow> int \<Rightarrow> bool"

definition list_pdfs_in_folder :: "world \<Rightarrow> string \<Rightarrow> string list" where
  "list_pdfs_in_folder w folder =
     (case listdir w folder of
        None \<Rightarrow> []
      | Some names \<Rightarrow>
          sort_key (\<lambda>p. lower (basename p))
            (filter (isfile w) (map (path_join folder) (filter is_pdf names))))"

definition count_pages :: "world \<Rightarrow> string \<Rightarrow> string + int" where
  "count_pages w pdf_path =
     (case PdfReader w pdf_path of Inl e \<Rightarrow> Inl e | Inr pages \<Rightarrow> Inr (int (length pages)))"

subsection \<open>The overlay and the stamper\<close>

definition is_space :: "char \<Rightarrow> bool" where
  "is_space c \<longleftrightarrow> c \<in> set [CHR '' '', CHR 0x09, CHR 0x0A, CHR 0x0B, CHR 0x0C, CHR 0x0D,
                            CHR 0x1C, CHR 0x1D, CHR 0x1E, CHR 0x1F]"

definition strip :: "string \<Rightarrow> string" where
  "strip s = rev (dropWhile is_space (rev (dropWhile is_space s)))"

text \<open>
  \<^verbatim>\<open>_overlay_header_footer_pdf_bytes\<close> is only called with its default margins
  (36, 24, 24), font and font sizes (10 for the header, 9 for the footer). The overlay
  is a one-page document of the size of the page it is made for.
\<close>

definition overlay_header_footer_pdf_bytes :: "int \<Rightarrow> int \<Rightarrow> string \<Rightarrow> int \<Rightarrow> int \<Rightarrow> page" where
  "overlay_header_footer_pdf_bytes page_w page_h hdr page_num_1based total_n =
     \<lparr>width = page_w, height = page_h,
      content =
        (if strip hdr \<noteq> []
         then [SetFont ''Helvetica'' 10, DrawString 36 (page_h - 24) (strip hdr)]
         else [])
        @ [SetFont ''Helvetica'' 9,
           DrawRightString (page_w - 36) 24
             (''Page '' @ str_int page_num_1based @ '' of '' @ str_int total_n)]\<rparr>"

text \<open>
  One round of the loop of \<^verbatim>\<open>_stamp_header_footer_on_writer\<close>: the overlay is made
  for the page's own size, and an exception of \<^verbatim>\<open>merge_page\<close> is swallowed
  (\<^verbatim>\<open>except Exception: pass\<close>), which leaves the page as it was.
\<close>

definition stamp_page :: "world \<Rightarrow> string \<Rightarrow> int \<Rightarrow> nat \<Rightarrow> page \<Rightarrow> page" where
  "stamp_page w hdr total_n idx p =
     (let overlay_page =
            overlay_header_footer_pdf_bytes (width p) (height p) hdr (int idx + 1) total_n
      in case merge_page w p overlay_page of None \<Rightarrow> p | Some p' \<Rightarrow> p')"

fun stamp_loop :: "world \<Rightarrow> string \<Rightarrow> int \<Rightarrow> nat \<Rightarrow> page list \<Rightarrow> page list" where
  "stamp_loop w hdr total_n idx [] = []"
| "stamp_loop w hdr total_n idx (p # ps) =
     stamp_page w hdr total_n idx p # stamp_loop w hdr total_n (Suc idx) ps"

definition stamp_header_footer_on_writer :: "world \<Rightarrow> page list \<Rightarrow> string \<Rightarrow> page list" where
  "stamp_header_footer_on_writer w ps hdr =
     (let total_n = int (length ps) in stamp_loop w hdr total_n 0 ps)"

text \<open>
  pypdf's \<^verbatim>\<open>merge_page\<close> as documented: the overlay's content is added after the
  page's own, and the page keeps its size. It is used for concrete runs only; the
  theorems hold for every \<open>merge_page\<close>.
\<close>

definition merge_page_append :: "page \<Rightarrow> page \<Rightarrow> page option" where
  "merge_page_append p ov = Some (p\<lparr>content := content p @ content ov\<rparr>)"

subsection \<open>The driver: \<^verbatim>\<open>merge_pdfs_with_toc\<close>\<close>

text \<open>Lines 194-202: the page counts, stopping at the first file that cannot be read.\<close>

fun count_loop :: "world \<Rightarrow> string list \<Rightarrow> error + int list" where
  "count_loop w [] = Inr []"
| "count_loop w (f # fs) =
     (case count_pages w f of
        Inl e \<Rightarrow> Inl (RuntimeError (''Failed to read PDF: '' @ f @ [CHR 0x0A] @ e))
      | Inr n \<Rightarrow> (case count_loop w fs of Inl err \<Rightarrow> Inl err | Inr ns \<Rightarrow> Inr (n # ns)))"

text \<open>Lines 207-211 (and 217-221): \<^verbatim>\<open>starts.append(current); current += n\<close>.\<close>

fun compute_starts :: "int \<Rightarrow> int list \<Rightarrow> int list" where
  "compute_starts current [] = []"
| "compute_starts current (n # ns) = current # compute_starts (current + n) ns"

definition make_toc_entries :: "string list \<Rightarrow> int list \<Rightarrow> (string \<times> int) list" where
  "make_toc_entries files starts = map (\<lambda>(f, s). (safe_basename f, s)) (zip files starts)"

record pagination =
  plan_toc_bytes :: "page list"
  plan_toc_pages :: int
  plan_starts :: "int list"
  plan_toc_entries :: "(string \<times> int) list"

text \<open>
  Lines 204-223. The layout function is a parameter, \<open>lay\<close>, so that the control flow
  of the resolver can be stated for every layout; \<open>merge_pdfs_with_toc\<close> passes
  \<open>build_toc_pdf_bytes default_geometry\<close>, the only layout the program calls.
\<close>

definition resolve_pagination ::
  "((string \<times> int) list \<Rightarrow> error + (page list \<times> int)) \<Rightarrow> string list \<Rightarrow> int list \<Rightarrow> error + pagination" where
  "resolve_pagination lay files page_counts =
     (let placeholder_entries = map (\<lambda>f. (safe_basename f, 1)) files
      in case lay placeholder_entries of
           Inl e \<Rightarrow> Inl e
         | Inr (_, toc_pages) \<Rightarrow>
            (let starts = compute_starts (toc_pages + 1) page_counts;
                 toc_entries = make_toc_entries files starts
             in case lay toc_entries of
                  Inl e \<Rightarrow> Inl e
                | Inr (toc_bytes, toc_pages_check) \<Rightarrow>
                    if toc_pages_check \<noteq> toc_pages then
                      (let toc_pages = toc_pages_check;
                           starts = compute_starts (toc_pages + 1) page_counts;
                           toc_entries = make_toc_entries files starts
                       in case lay toc_entries of
                            Inl e \<Rightarrow> Inl e
                          | Inr (toc_bytes, toc_pages) \<Rightarrow>
                              Inr \<lparr>plan_toc_bytes = toc_bytes, plan_toc_pages = toc_pages,
                                   plan_starts = starts, plan_toc_entries = toc_entries\<rparr>)
                    else
                      Inr \<lparr>plan_toc_bytes = toc_bytes, plan_toc_pages = toc_pages,
                           plan_starts = starts, plan_toc_entries = toc_entries\<rparr>))"

subsection \<open>The resolver as the specification words it\<close>




record writer =
  pages :: "page list"
  outline :: "(string \<times> int) list"

text \<open>
  Lines 237-247, over \<^verbatim>\<open>files\<close> paired with \<^verbatim>\<open>starts\<close> (\<^verbatim>\<open>starts[i - 1]\<close> is
  the start of the \<open>i\<close>-th file; both lists have the same length). The file is opened
  a second time; an exception there is not caught. An exception of
  \<^verbatim>\<open>add_outline_item\<close> is swallowed.
\<close>

fun add_files :: "world \<Rightarrow> (string \<times> int) list \<Rightarrow> writer \<Rightarrow> error + writer" where
  "add_files w [] wr = Inr wr"
| "add_files w ((f, s) # rest) wr =
     (case PdfReader w f of
        Inl e \<Rightarrow> Inl (PdfReadError e)
      | Inr ps \<Rightarrow>
          (let file_start_index = s - 1;
               wr1 = wr\<lparr>pages := pages wr @ ps\<rparr>;
               wr2 = (if add_outline_item w (safe_basename f) file_start_index
                      then wr1\<lparr>outline := outline wr1 @ [(safe_basename f, file_start_index)]\<rparr>
                      else wr1)
           in add_files w rest wr2))"

record merge_result =
  folder :: string
  output_path :: string
  header_text :: string
  files :: "string list"
  page_counts :: "int list"
  toc_pages :: int
  start_pages :: "int list"
  total_pages :: int

text \<open>
  The driver, with \<^verbatim>\<open>progress_cb\<close> and \<^verbatim>\<open>log_cb\<close> left at \<^verbatim>\<open>None\<close>. The
  files written are the state: \<open>disk\<close> maps a path to the document stored there, and
  the function returns the disk after the run with its outcome. The destination is
  taken to be writable: the only write of the run is its last statement.
\<close>

definition merge_pdfs_with_toc ::
  "world \<Rightarrow> (string \<rightharpoonup> writer) \<Rightarrow> string \<Rightarrow> string \<Rightarrow> string \<Rightarrow> (string \<rightharpoonup> writer) \<times> (error + merge_result)" where
  "merge_pdfs_with_toc w disk dir out hdr =
     (let fs = list_pdfs_in_folder w dir
      in if fs = [] then (disk, Inl (ValueError ''No PDF files found in the selected folder.''))
         else case count_loop w fs of
                Inl e \<Rightarrow> (disk, Inl e)
              | Inr pcs \<Rightarrow>
                 (case resolve_pagination (build_toc_pdf_bytes default_geometry) fs pcs of
                    Inl e \<Rightarrow> (disk, Inl e)
                  | Inr plan \<Rightarrow>
                     (case add_files w (zip fs (plan_starts plan)) \<lparr>pages = plan_toc_bytes plan, outline = []\<rparr> of
                        Inl e \<Rightarrow> (disk, Inl e)
                      | Inr wr \<Rightarrow>
                         (let wr' = wr\<lparr>pages := stamp_header_footer_on_writer w (pages wr) hdr\<rparr>
                          in (disk(out \<mapsto> wr'),
                              Inr \<lparr>folder = dir, output_path = out, header_text = hdr,
                                   files = fs, page_counts = pcs,
                                   toc_pages = plan_toc_pages plan,
                                   start_pages = plan_starts plan,
                                   total_pages = int (length (pages wr'))\<rparr>)))))"

subsection \<open>Concrete runs\<close>

text \<open>
  A folder \<^verbatim>\<open>docs\<close> holding the given files, each with the outcome of opening it;
  every page merges, every outline item is accepted.
\<close>

definition blank_page :: "int \<Rightarrow> int \<Rightarrow> page" where
  "blank_page pw ph = \<lparr>width = pw, height = ph, content = []\<rparr>"

definition sample_world :: "(string \<times> (string + page list)) list \<Rightarrow> world" where
  "sample_world docs =
     \<lparr>listdir = (\<lambda>d. if d = ''docs'' then Some (map fst docs) else None),
      isfile = (\<lambda>p. True),
      PdfReader = (\<lambda>p. case map_of docs (basename p) of None \<Rightarrow> Inl ''No such file'' | Some r \<Rightarrow> r),
      merge_page = merge_page_append,
      add_outline_item = (\<lambda>t n. True)\<rparr>"

definition two_docs_world :: world where
  "two_docs_world =
     sample_world [(''b.pdf'', Inr [blank_page 0 792]),
                   (''notes.txt'', Inl ''not a PDF''),
                   (''A.PDF'', Inr [blank_page 612 792, blank_page 595 842])]"

definition two_docs_result :: merge_result where
  "two_docs_result =
     \<lparr>folder = ''docs'', output_path = ''out.pdf'', header_text = ''H'',
      files = [''docs/A.PDF'', ''docs/b.pdf''], page_counts = [2, 1],
      toc_pages = 1, start_pages = [2, 4], total_pages = 4\<rparr>"

definition zero_page_world :: world where
  "zero_page_world =
     sample_world [(''a.pdf'', Inr []), (''b.pdf'', Inr [blank_page 612 792])]"

definition corrupt_world :: world where
  "corrupt_world =
     sample_world [(''a.pdf'', Inr [blank_page 612 792]),
                   (''b.pdf'', Inl ''EOF marker not found'')]"

definition no_pdf_world :: world where
  "no_pdf_world = sample_world [(''notes.txt'', Inl ''not a PDF'')]"

text \<open>A world in which pypdf cannot merge anything onto a page of zero width.\<close>

definition fragile_world :: world where
  "fragile_world =
     two_docs_world\<lparr>merge_page := (\<lambda>p ov. if width p = 0 then None else merge_page_append p ov)\<rparr>"

text \<open>The pages of the source files, in listing order, as the assembly loop reads them.\<close>

definition source_pages :: "world \<Rightarrow> string list \<Rightarrow> page list" where
  "source_pages w fs =
     concat (map (\<lambda>f. case PdfReader w f of Inl e \<Rightarrow> [] | Inr ps \<Rightarrow> ps) fs)"

section \<open>Properties of the TOC layout\<close>

lemma ceil_div_neg:
  fixes n c :: int
  assumes c: "0 < c"
  shows "(n + (c - 1)) div c = - (- n div c)"
proof -
  define q where "q = n div c"
  define r where "r = n mod c"
  have n: "n = c * q + r" by (simp add: q_def r_def)
  have r: "0 \<le> r" "r < c" using c by (simp_all add: r_def)
  show ?thesis
  proof (cases "r = 0")
    case True
    have "n + (c - 1) = c * q + (c - 1)" using n True by simp
    then have up: "(n + (c - 1)) div c = q"
      using c by (intro int_div_pos_eq[where r = "c - 1"]) auto
    have "- n = c * (- q) + 0" using n True by simp
    then have "- n div c = - q"
      using c by (intro int_div_pos_eq[where r = 0]) auto
    with up show ?thesis by simp
  next
    case False
    have "n + (c - 1) = c * (q + 1) + (r - 1)" using n by (simp add: algebra_simps)
    then have up: "(n + (c - 1)) div c = q + 1"
      using c r False by (intro int_div_pos_eq[where r = "r - 1"]) auto
    have "- n = c * (- q - 1) + (c - r)" using n by (simp add: algebra_simps)
    then have "- n div c = - q - 1"
      using c r False by (intro int_div_pos_eq[where r = "c - r"]) auto
    with up show ?thesis by simp
  qed
qed

lemma ceil_div_int:
  fixes n c :: int
  assumes "0 < c"
  shows "(n + (c - 1)) div c = \<lceil>real_of_int n / real_of_int c\<rceil>"
  using ceil_div_neg[OF assms, of n] by (simp add: ceiling_divide_eq_div)

lemma lines_per_page_pos: "lines_per_page g = Inr c \<Longrightarrow> 0 < c"
  by (auto simp: lines_per_page_def split: if_splits)

lemma lines_per_page_default: "lines_per_page default_geometry = Inr 45"
  by (simp add: lines_per_page_def line_h_def usable_h_def header_space_def title_gap_def
      default_geometry_def)

lemma line_h_default: "line_h default_geometry \<noteq> 0"
  by (simp add: line_h_def default_geometry_def)

lemma toc_page_count_ge_1: "1 \<le> toc_page_count c es"
  by (simp add: toc_page_count_def)

lemma toc_page_count_length:
  "length es = length es' \<Longrightarrow> toc_page_count c es = toc_page_count c es'"
  by (simp add: toc_page_count_def)

lemma build_toc_Inr:
  "lines_per_page g = Inr c \<Longrightarrow>
   build_toc_pdf_bytes g es =
     Inr (map (toc_page g c es) [0..<nat (toc_page_count c es)], toc_page_count c es)"
  by (simp add: build_toc_pdf_bytes_def Let_def)

lemma length_filter_draw_entries:
  "length (filter is_right_string (draw_entries g y es)) = length es"
  by (induction es arbitrary: y) (auto simp: Let_def)

lemma entry_lines_toc_page:
  "entry_lines (toc_page g lpp entries i) = length (page_slice lpp entries (int i))"
  by (simp add: entry_lines_def toc_page_def draw_page_def length_filter_draw_entries)

lemma page_slice_nat:
  "page_slice (int c) entries (int i)
     = take (min (length entries) (i * c + c) - i * c) (drop (i * c) entries)"
proof -
  have a: "int i * int c = int (i * c)" by simp
  have b: "min (int (length entries)) (int (i * c) + int c)
             = int (min (length entries) (i * c + c))"
    by (simp only: of_nat_add [symmetric] of_nat_min)
  have d: "nat (int (min (length entries) (i * c + c)) - int (i * c))
             = min (length entries) (i * c + c) - i * c"
    by (simp only: nat_minus_as_int[symmetric])
  show ?thesis
    unfolding page_slice_def Let_def by (simp only: a b d nat_int)
qed

lemma length_page_slice:
  assumes "0 < lpp"
  shows "length (page_slice lpp entries (int i)) = min (nat lpp) (length entries - i * nat lpp)"
proof -
  define c where "c = nat lpp"
  have lpp: "lpp = int c" using assms by (simp add: c_def)
  have "length (page_slice (int c) entries (int i))
          = min (min (length entries) (i * c + c) - i * c) (length entries - i * c)"
    by (simp only: page_slice_nat length_take length_drop)
  also have "\<dots> = min c (length entries - i * c)" by linarith
  finally show ?thesis by (simp only: lpp nat_int)
qed

text \<open>
  C3. For a geometry whose line height is not zero, the layout of \<open>N\<close> entries has
  \<open>ceil (N / capacity)\<close> pages, and one page when that is less than one (so also for
  \<open>N = 0\<close>); it renders exactly that many pages.
\<close>

theorem toc_layout_page_count:
  assumes "line_h g \<noteq> 0"
  shows "\<exists>c ps n. lines_per_page g = Inr c \<and> build_toc_pdf_bytes g entries = Inr (ps, n)
           \<and> n = max 1 \<lceil>real (length entries) / real_of_int c\<rceil> \<and> int (length ps) = n"
proof -
  from assms obtain c where c: "lines_per_page g = Inr c"
    by (auto simp: lines_per_page_def)
  then have "0 < c" by (rule lines_per_page_pos)
  then have "toc_page_count c entries = max 1 \<lceil>real (length entries) / real_of_int c\<rceil>"
    using ceil_div_int[of c "int (length entries)"] by (simp add: toc_page_count_def)
  moreover have "1 \<le> toc_page_count c entries" by (rule toc_page_count_ge_1)
  ultimately show ?thesis using c by (simp add: build_toc_Inr)
qed

theorem toc_layout_page_count_witness:
  "line_h default_geometry \<noteq> 0 \<and>
   (\<exists>c ps n. lines_per_page default_geometry = Inr c
      \<and> build_toc_pdf_bytes default_geometry (replicate 46 (''a.pdf'', 1)) = Inr (ps, n)
      \<and> n = max 1 \<lceil>real (length (replicate 46 (''a.pdf'', 1::int))) / real_of_int c\<rceil>
      \<and> int (length ps) = n \<and> c = 45 \<and> n = 2)"
proof -
  from toc_layout_page_count[OF line_h_default, of "replicate 46 (''a.pdf'', 1)"]
  obtain c ps n where
    c: "lines_per_page default_geometry = Inr c"
    and b: "build_toc_pdf_bytes default_geometry (replicate 46 (''a.pdf'', 1)) = Inr (ps, n)"
    and n: "n = max 1 \<lceil>real (length (replicate 46 (''a.pdf'', 1::int))) / real_of_int c\<rceil>"
    and l: "int (length ps) = n"
    by blast
  have c45: "c = 45" using c by (simp add: lines_per_page_default)
  have "n = 2" using n c45 by simp
  with c b n l c45 line_h_default show ?thesis by blast
qed

text \<open>
  C4. The capacity is \<open>floor ((usable_h - header_space) / line_h)\<close>, clamped to at least
  1: it is computed from the geometry alone and is positive, and it is the capacity of
  every layout with that geometry, whatever the entries: page \<open>i\<close> of a layout holds
  \<open>min capacity (N - i * capacity)\<close> entry lines.
\<close>

theorem capacity_geometry_only:
  assumes "line_h g \<noteq> 0"
  shows "\<exists>c. lines_per_page g = Inr c
           \<and> c = max 1 \<lfloor>real_of_int (usable_h g - header_space g) / real_of_int (line_h g)\<rfloor>
           \<and> 0 < c
           \<and> (\<forall>entries. \<exists>ps n. build_toc_pdf_bytes g entries = Inr (ps, n)
                 \<and> (\<forall>i < length ps. entry_lines (ps ! i) = min (nat c) (length entries - i * nat c)))"
proof -
  define c where "c = max 1 ((usable_h g - header_space g) div line_h g)"
  have c: "lines_per_page g = Inr c" using assms by (simp add: lines_per_page_def c_def)
  have pos: "0 < c" by (simp add: c_def)
  have fl: "c = max 1 \<lfloor>real_of_int (usable_h g - header_space g) / real_of_int (line_h g)\<rfloor>"
    unfolding c_def by (simp only: floor_divide_of_int_eq)
  have "\<exists>ps n. build_toc_pdf_bytes g entries = Inr (ps, n)
          \<and> (\<forall>i < length ps. entry_lines (ps ! i) = min (nat c) (length entries - i * nat c))"
    for entries
    using pos by (simp add: build_toc_Inr[OF c] entry_lines_toc_page length_page_slice)
  with c pos fl show ?thesis by blast
qed

theorem capacity_geometry_only_witness:
  "line_h default_geometry \<noteq> 0 \<and>
   (\<exists>c. lines_per_page default_geometry = Inr c \<and> c = 45 \<and> 0 < c
     \<and> (\<exists>ps n. build_toc_pdf_bytes default_geometry [(''a.pdf'', 2)] = Inr (ps, n)
           \<and> entry_lines (ps ! 0) = 1))"
proof -
  from capacity_geometry_only[OF line_h_default] obtain c where
    c: "lines_per_page default_geometry = Inr c" "0 < c"
    and every: "\<forall>entries. \<exists>ps n. build_toc_pdf_bytes default_geometry entries = Inr (ps, n)
                 \<and> (\<forall>i < length ps. entry_lines (ps ! i) = min (nat c) (length entries - i * nat c))"
    by blast
  have c45: "c = 45" using c(1) by (simp add: lines_per_page_default)
  from every obtain ps n where
    b: "build_toc_pdf_bytes default_geometry [(''a.pdf'', 2)] = Inr (ps, n)"
    and e: "\<forall>i < length ps. entry_lines (ps ! i) = min (nat c) (length [(''a.pdf'', 2::int)] - i * nat c)"
    by blast
  have "length ps = 1" using b
    by (auto simp: build_toc_Inr[OF lines_per_page_default] toc_page_count_def)
  with e c45 have "entry_lines (ps ! 0) = 1" by simp
  with c c45 b line_h_default show ?thesis by blast
qed

section \<open>Properties of the pagination and of the driver\<close>

lemma length_compute_starts: "length (compute_starts c ns) = length ns"
  by (induction ns arbitrary: c) auto

lemma compute_starts_nth:
  "i < length ns \<Longrightarrow> compute_starts c ns ! i = c + sum_list (take i ns)"
proof (induction ns arbitrary: c i)
  case Nil
  then show ?case by simp
next
  case (Cons n ns)
  show ?case
  proof (cases i)
    case 0
    then show ?thesis by simp
  next
    case (Suc j)
    with Cons.prems have "j < length ns" by simp
    from Cons.IH[OF this, of "c + n"] Suc show ?thesis by simp
  qed
qed

lemma compute_starts_lower:
  "\<forall>n\<in>set ns. 0 \<le> n \<Longrightarrow> s \<in> set (compute_starts c ns) \<Longrightarrow> c \<le> s"
proof (induction ns arbitrary: c)
  case Nil
  then show ?case by simp
next
  case (Cons n ns)
  from Cons.prems have n: "0 \<le> n" and rest: "\<forall>m\<in>set ns. 0 \<le> m" by simp_all
  from Cons.prems(2) consider "s = c" | "s \<in> set (compute_starts (c + n) ns)" by auto
  then show ?case
  proof cases
    case 1
    then show ?thesis by simp
  next
    case 2
    from Cons.IH[OF rest 2] n show ?thesis by simp
  qed
qed

lemma compute_starts_sorted:
  "\<forall>n\<in>set ns. 0 \<le> n \<Longrightarrow> sorted (compute_starts c ns)"
proof (induction ns arbitrary: c)
  case Nil
  then show ?case by simp
next
  case (Cons n ns)
  from Cons.prems have n: "0 \<le> n" and rest: "\<forall>m\<in>set ns. 0 \<le> m" by simp_all
  have "c \<le> s" if "s \<in> set (compute_starts (c + n) ns)" for s
    using compute_starts_lower[OF rest that] n by simp
  with Cons.IH[OF rest, of "c + n"] show ?case by simp
qed

lemma compute_starts_strict:
  "\<forall>n\<in>set ns. 0 < n \<Longrightarrow> sorted_wrt (<) (compute_starts c ns)"
proof (induction ns arbitrary: c)
  case Nil
  then show ?case by simp
next
  case (Cons n ns)
  from Cons.prems have n: "0 < n" and rest: "\<forall>m\<in>set ns. 0 < m" by simp_all
  from rest have rest0: "\<forall>m\<in>set ns. 0 \<le> m" by auto
  have "c < s" if "s \<in> set (compute_starts (c + n) ns)" for s
    using compute_starts_lower[OF rest0 that] n by simp
  with Cons.IH[OF rest, of "c + n"] show ?case by simp
qed

lemma count_loop_Inr:
  "count_loop w fs = Inr pcs \<Longrightarrow> length pcs = length fs \<and> (\<forall>n\<in>set pcs. 0 \<le> n)"
  by (induction fs arbitrary: pcs) (auto simp: count_pages_def split: sum.splits)

lemma count_loop_Inl:
  "count_loop w fs = Inl e \<Longrightarrow>
   \<exists>f msg. f \<in> set fs \<and> PdfReader w f = Inl msg
     \<and> e = RuntimeError (''Failed to read PDF: '' @ f @ [CHR 0x0A] @ msg)"
  by (induction fs) (auto simp: count_pages_def split: sum.splits)

lemma count_loop_unreadable:
  "f \<in> set fs \<Longrightarrow> PdfReader w f = Inl msg \<Longrightarrow> \<exists>e. count_loop w fs = Inl e"
  by (induction fs) (auto simp: count_pages_def split: sum.splits)

lemma length_make_toc_entries:
  "length ss = length fs \<Longrightarrow> length (make_toc_entries fs ss) = length fs"
  by (simp add: make_toc_entries_def)

lemma resolve_build:
  assumes c: "lines_per_page g = Inr c" and len: "length pcs = length fs"
  shows "resolve_pagination (build_toc_pdf_bytes g) fs pcs =
     (let T = toc_page_count c (map (\<lambda>f. (safe_basename f, 1)) fs);
          S = compute_starts (T + 1) pcs;
          E = make_toc_entries fs S
      in Inr \<lparr>plan_toc_bytes = map (toc_page g c E) [0..<nat T], plan_toc_pages = T,
              plan_starts = S, plan_toc_entries = E\<rparr>)"
proof -
  define T where "T = toc_page_count c (map (\<lambda>f. (safe_basename f, 1::int)) fs)"
  define E where "E = make_toc_entries fs (compute_starts (T + 1) pcs)"
  have "length E = length (map (\<lambda>f. (safe_basename f, 1::int)) fs)"
    by (simp add: E_def length_make_toc_entries length_compute_starts len)
  then have same: "toc_page_count c E = T"
    unfolding T_def by (rule toc_page_count_length)
  show ?thesis
    unfolding resolve_pagination_def Let_def build_toc_Inr[OF c]
    by (simp add: same[unfolded E_def T_def])
qed

lemma basename_suffix: "suffix (basename p) p"
proof -
  have "prefix (takeWhile (\<lambda>c. c \<noteq> CHR ''/'') (rev p)) (rev p)"
    by (metis takeWhile_dropWhile_id prefixI)
  then have "suffix (rev (takeWhile (\<lambda>c. c \<noteq> CHR ''/'') (rev p))) (rev (rev p))"
    by (simp only: suffix_to_prefix rev_rev_ident)
  then show ?thesis by (simp add: basename_def)
qed

lemma merge_Inr:
  assumes "merge_pdfs_with_toc w disk dir out hdr = (disk', Inr r)"
  shows "\<exists>pcs plan wr.
     list_pdfs_in_folder w dir \<noteq> []
     \<and> count_loop w (list_pdfs_in_folder w dir) = Inr pcs
     \<and> resolve_pagination (build_toc_pdf_bytes default_geometry) (list_pdfs_in_folder w dir) pcs = Inr plan
     \<and> add_files w (zip (list_pdfs_in_folder w dir) (plan_starts plan))
          \<lparr>pages = plan_toc_bytes plan, outline = []\<rparr> = Inr wr
     \<and> disk' = disk(out \<mapsto> wr\<lparr>pages := stamp_header_footer_on_writer w (pages wr) hdr\<rparr>)
     \<and> r = \<lparr>folder = dir, output_path = out, header_text = hdr,
             files = list_pdfs_in_folder w dir, page_counts = pcs,
             toc_pages = plan_toc_pages plan, start_pages = plan_starts plan,
             total_pages = int (length (stamp_header_footer_on_writer w (pages wr) hdr))\<rparr>"
  using assms unfolding merge_pdfs_with_toc_def Let_def
  by (auto split: if_splits sum.splits)

lemma two_docs_run:
  "snd (merge_pdfs_with_toc two_docs_world Map.empty ''docs'' ''out.pdf'' ''H'') = Inr two_docs_result"
  by code_simp

lemma merge_start_pages:
  assumes "merge_pdfs_with_toc w disk dir out hdr = (disk', Inr r)"
  shows "files r \<noteq> [] \<and> length (page_counts r) = length (files r)
         \<and> (\<forall>n\<in>set (page_counts r). 0 \<le> n)
         \<and> start_pages r = compute_starts (toc_pages r + 1) (page_counts r)"
proof -
  from merge_Inr[OF assms] obtain pcs plan wr where
    ne: "list_pdfs_in_folder w dir \<noteq> []"
    and cnt: "count_loop w (list_pdfs_in_folder w dir) = Inr pcs"
    and res: "resolve_pagination (build_toc_pdf_bytes default_geometry) (list_pdfs_in_folder w dir) pcs = Inr plan"
    and "add_files w (zip (list_pdfs_in_folder w dir) (plan_starts plan))
          \<lparr>pages = plan_toc_bytes plan, outline = []\<rparr> = Inr wr"
    and "disk' = disk(out \<mapsto> wr\<lparr>pages := stamp_header_footer_on_writer w (pages wr) hdr\<rparr>)"
    and r: "r = \<lparr>folder = dir, output_path = out, header_text = hdr,
             files = list_pdfs_in_folder w dir, page_counts = pcs,
             toc_pages = plan_toc_pages plan, start_pages = plan_starts plan,
             total_pages = int (length (stamp_header_footer_on_writer w (pages wr) hdr))\<rparr>"
    by (elim exE conjE)
  from count_loop_Inr[OF cnt] have len: "length pcs = length (list_pdfs_in_folder w dir)"
    and nonneg: "\<forall>n\<in>set pcs. 0 \<le> n" by simp_all
  from res have "plan_starts plan = compute_starts (plan_toc_pages plan + 1) pcs"
    unfolding resolve_build[OF lines_per_page_default len] Let_def by auto
  with ne len nonneg r show ?thesis by simp
qed

text \<open>
  C1 (as amended). When a run succeeds, there is one start page per file, the first is
  \<open>toc_pages + 1\<close>, each next one is the previous start plus the previous page count,
  so the \<open>i\<close>-th is \<open>toc_pages + 1\<close> plus the sum of the first \<open>i\<close> page counts. The
  sequence never decreases; it is strictly increasing when every file has at least one
  page.
\<close>

theorem start_pages_recurrence:
  assumes "merge_pdfs_with_toc w disk dir out hdr = (disk', Inr r)"
  shows "files r \<noteq> [] \<and> length (start_pages r) = length (files r)
     \<and> length (page_counts r) = length (files r)
     \<and> start_pages r ! 0 = toc_pages r + 1
     \<and> (\<forall>i. 0 < i \<and> i < length (start_pages r) \<longrightarrow>
            start_pages r ! i = start_pages r ! (i - 1) + page_counts r ! (i - 1))
     \<and> (\<forall>i < length (start_pages r).
            start_pages r ! i = toc_pages r + 1 + sum_list (take i (page_counts r)))
     \<and> sorted (start_pages r)
     \<and> ((\<forall>n\<in>set (page_counts r). 0 < n) \<longrightarrow> sorted_wrt (<) (start_pages r))"
proof -
  from merge_start_pages[OF assms] have ne: "files r \<noteq> []"
    and len: "length (page_counts r) = length (files r)"
    and nonneg: "\<forall>n\<in>set (page_counts r). 0 \<le> n"
    and st: "start_pages r = compute_starts (toc_pages r + 1) (page_counts r)"
    by simp_all
  have l: "length (start_pages r) = length (page_counts r)"
    by (simp add: st length_compute_starts)
  have nth: "start_pages r ! i = toc_pages r + 1 + sum_list (take i (page_counts r))"
    if "i < length (start_pages r)" for i
    using that l by (simp add: st compute_starts_nth)
  have first: "start_pages r ! 0 = toc_pages r + 1"
    using nth[of 0] ne len l by simp
  have step: "start_pages r ! i = start_pages r ! (i - 1) + page_counts r ! (i - 1)"
    if "0 < i" "i < length (start_pages r)" for i
  proof -
    from that obtain j where j: "i = Suc j" by (cases i) auto
    with that l have jl: "j < length (page_counts r)" by simp
    have "take (Suc j) (page_counts r) = take j (page_counts r) @ [page_counts r ! j]"
      using jl by (rule take_Suc_conv_app_nth)
    then show ?thesis using nth[of i] nth[of j] that j by simp
  qed
  have srt: "sorted (start_pages r)"
    unfolding st using nonneg by (rule compute_starts_sorted)
  have strict: "sorted_wrt (<) (start_pages r)" if "\<forall>n\<in>set (page_counts r). 0 < n"
    unfolding st using that by (rule compute_starts_strict)
  have ls: "length (start_pages r) = length (files r)" using l len by simp
  from ne ls len first srt show ?thesis using step nth strict by blast
qed

theorem start_pages_recurrence_witness:
  "merge_pdfs_with_toc two_docs_world Map.empty ''docs'' ''out.pdf'' ''H''
     = (fst (merge_pdfs_with_toc two_docs_world Map.empty ''docs'' ''out.pdf'' ''H''), Inr two_docs_result)
   \<and> start_pages two_docs_result = [2, 4]
   \<and> start_pages two_docs_result ! 0 = toc_pages two_docs_result + 1
   \<and> start_pages two_docs_result ! 1 = start_pages two_docs_result ! 0 + page_counts two_docs_result ! 0
   \<and> sorted_wrt (<) (start_pages two_docs_result)"
proof -
  have run: "merge_pdfs_with_toc two_docs_world Map.empty ''docs'' ''out.pdf'' ''H''
     = (fst (merge_pdfs_with_toc two_docs_world Map.empty ''docs'' ''out.pdf'' ''H''), Inr two_docs_result)"
    by (simp add: prod_eq_iff two_docs_run)
  have pos: "\<forall>n\<in>set (page_counts two_docs_result). 0 < n"
    by (simp add: two_docs_result_def)
  from start_pages_recurrence[OF run] pos
  have "start_pages two_docs_result ! 0 = toc_pages two_docs_result + 1"
    and "sorted_wrt (<) (start_pages two_docs_result)"
    by blast+
  moreover have "start_pages two_docs_result = [2, 4]"
    and "start_pages two_docs_result ! 1 = start_pages two_docs_result ! 0 + page_counts two_docs_result ! 0"
    by (simp_all add: two_docs_result_def)
  ultimately show ?thesis using run by blast
qed

text \<open>
  C1, the claim as stated: a readable PDF with no pages gives its successor the same
  start page, so the sequence is not strictly increasing.
\<close>

theorem start_pages_zero_page_document:
  "map_sum id page_counts (snd (merge_pdfs_with_toc zero_page_world Map.empty ''docs'' ''out.pdf'' ''H'')) = Inr [0, 1]
   \<and> map_sum id start_pages (snd (merge_pdfs_with_toc zero_page_world Map.empty ''docs'' ''out.pdf'' ''H'')) = Inr [2, 2]
   \<and> \<not> sorted_wrt (<) [2, 2 :: int]"
  by code_simp






text \<open>
  C8. When a listed file cannot be read, the run fails with a \<open>RuntimeError\<close> whose
  message holds the path, and so the name, of a file that cannot be read, and the disk
  is as it was before the run.
\<close>

theorem unreadable_source_aborts:
  assumes "f \<in> set (list_pdfs_in_folder w dir)" and "PdfReader w f = Inl msg"
  shows "\<exists>g m. g \<in> set (list_pdfs_in_folder w dir) \<and> PdfReader w g = Inl m
       \<and> merge_pdfs_with_toc w disk dir out hdr
           = (disk, Inl (RuntimeError (''Failed to read PDF: '' @ g @ [CHR 0x0A] @ m)))
       \<and> sublist (safe_basename g) (''Failed to read PDF: '' @ g @ [CHR 0x0A] @ m)"
proof -
  from count_loop_unreadable[OF assms] obtain e where
    e: "count_loop w (list_pdfs_in_folder w dir) = Inl e" by blast
  from count_loop_Inl[OF e] obtain g m where
    g: "g \<in> set (list_pdfs_in_folder w dir)" and m: "PdfReader w g = Inl m"
    and msg: "e = RuntimeError (''Failed to read PDF: '' @ g @ [CHR 0x0A] @ m)"
    by blast
  from assms(1) have ne: "list_pdfs_in_folder w dir \<noteq> []" by auto
  have run: "merge_pdfs_with_toc w disk dir out hdr = (disk, Inl e)"
    unfolding merge_pdfs_with_toc_def Let_def using ne e by simp
  from basename_suffix[of g] obtain ps where ps: "g = ps @ basename g"
    by (auto simp: suffix_def)
  have "''Failed to read PDF: '' @ g @ [CHR 0x0A] @ m
          = (''Failed to read PDF: '' @ ps) @ safe_basename g @ ([CHR 0x0A] @ m)"
    using ps by (simp add: safe_basename_def)
  then have "sublist (safe_basename g) (''Failed to read PDF: '' @ g @ [CHR 0x0A] @ m)"
    unfolding sublist_def by blast
  with g m run msg show ?thesis by blast
qed

lemma corrupt_run:
  "snd (merge_pdfs_with_toc corrupt_world Map.empty ''docs'' ''out.pdf'' ''H'')
     = Inl (RuntimeError (''Failed to read PDF: docs/b.pdf'' @ [CHR 0x0A] @ ''EOF marker not found''))"
  by code_simp

lemma corrupt_listing: "list_pdfs_in_folder corrupt_world ''docs'' = [''docs/a.pdf'', ''docs/b.pdf'']"
  by code_simp

lemma corrupt_reader: "PdfReader corrupt_world ''docs/b.pdf'' = Inl ''EOF marker not found''"
  by code_simp

theorem unreadable_source_aborts_witness:
  "''docs/b.pdf'' \<in> set (list_pdfs_in_folder corrupt_world ''docs'')
   \<and> PdfReader corrupt_world ''docs/b.pdf'' = Inl ''EOF marker not found''
   \<and> merge_pdfs_with_toc corrupt_world Map.empty ''docs'' ''out.pdf'' ''H''
       = (Map.empty, Inl (RuntimeError (''Failed to read PDF: docs/b.pdf'' @ [CHR 0x0A] @ ''EOF marker not found'')))"
proof -
  have h1: "''docs/b.pdf'' \<in> set (list_pdfs_in_folder corrupt_world ''docs'')"
    by (simp add: corrupt_listing)
  from unreadable_source_aborts[OF h1 corrupt_reader, of Map.empty "''out.pdf''" "''H''"]
  have "fst (merge_pdfs_with_toc corrupt_world Map.empty ''docs'' ''out.pdf'' ''H'') = Map.empty"
    by auto
  with corrupt_run have "merge_pdfs_with_toc corrupt_world Map.empty ''docs'' ''out.pdf'' ''H''
       = (Map.empty, Inl (RuntimeError (''Failed to read PDF: docs/b.pdf'' @ [CHR 0x0A] @ ''EOF marker not found'')))"
    by (simp add: prod_eq_iff)
  with h1 corrupt_reader show ?thesis by blast
qed

text \<open>
  C9. When the listing of the folder is empty, the run fails with the \<open>ValueError\<close>
  "No PDF files found in the selected folder." and the disk is as it was before the
  run.
\<close>

theorem empty_folder_fails:
  assumes "list_pdfs_in_folder w dir = []"
  shows "merge_pdfs_with_toc w disk dir out hdr
           = (disk, Inl (ValueError ''No PDF files found in the selected folder.''))"
  unfolding merge_pdfs_with_toc_def Let_def using assms by simp

lemma no_pdf_listing: "list_pdfs_in_folder no_pdf_world ''docs'' = []"
  by code_simp

theorem empty_folder_fails_witness:
  "list_pdfs_in_folder no_pdf_world ''docs'' = []
   \<and> merge_pdfs_with_toc no_pdf_world Map.empty ''docs'' ''out.pdf'' ''H''
       = (Map.empty, Inl (ValueError ''No PDF files found in the selected folder.''))"
  using empty_folder_fails[OF no_pdf_listing, of Map.empty "''out.pdf''" "''H''"] no_pdf_listing
  by simp

section \<open>Properties of the stamper\<close>

lemma length_stamp_loop: "length (stamp_loop w hdr t k ps) = length ps"
  by (induction ps arbitrary: k) auto

lemma stamp_loop_nth:
  "i < length ps \<Longrightarrow> stamp_loop w hdr t k ps ! i = stamp_page w hdr t (k + i) (ps ! i)"
proof (induction ps arbitrary: k i)
  case Nil
  then show ?case by simp
next
  case (Cons p ps)
  show ?case
  proof (cases i)
    case 0
    then show ?thesis by simp
  next
    case (Suc j)
    with Cons.prems have "j < length ps" by simp
    from Cons.IH[OF this, of "Suc k"] Suc show ?thesis by simp
  qed
qed

lemma length_stamp: "length (stamp_header_footer_on_writer w ps hdr) = length ps"
  by (simp add: stamp_header_footer_on_writer_def Let_def length_stamp_loop)

lemma stamp_nth:
  "i < length ps \<Longrightarrow>
   stamp_header_footer_on_writer w ps hdr ! i = stamp_page w hdr (int (length ps)) i (ps ! i)"
  by (simp add: stamp_header_footer_on_writer_def Let_def stamp_loop_nth)

lemma overlay_footer:
  "filter is_right_string (content (overlay_header_footer_pdf_bytes pw ph hdr n t))
     = [DrawRightString (pw - 36) 24 (''Page '' @ str_int n @ '' of '' @ str_int t)]"
  by (simp add: overlay_header_footer_pdf_bytes_def)

lemma overlay_size:
  "width (overlay_header_footer_pdf_bytes pw ph hdr n t) = pw
   \<and> height (overlay_header_footer_pdf_bytes pw ph hdr n t) = ph"
  by (simp add: overlay_header_footer_pdf_bytes_def)

text \<open>
  C6. The stamper keeps the number of pages, and the overlay it merges onto the page at
  position \<open>i\<close> (counted from 0) of the assembled document has exactly one right-aligned
  string, the footer "Page \<open>i + 1\<close> of \<open>total\<close>", \<open>total\<close> being the number of pages of
  the document. The page after stamping is what \<open>merge_page\<close> makes of the page and
  this overlay.
\<close>

theorem footer_page_i_of_total:
  assumes "i < length ps"
  shows "length (stamp_header_footer_on_writer w ps hdr) = length ps
     \<and> stamp_header_footer_on_writer w ps hdr ! i
         = (case merge_page w (ps ! i)
                 (overlay_header_footer_pdf_bytes (width (ps ! i)) (height (ps ! i)) hdr
                    (int i + 1) (int (length ps)))
            of None \<Rightarrow> ps ! i | Some p' \<Rightarrow> p')
     \<and> filter is_right_string
          (content (overlay_header_footer_pdf_bytes (width (ps ! i)) (height (ps ! i)) hdr
                      (int i + 1) (int (length ps))))
         = [DrawRightString (width (ps ! i) - 36) 24
              (''Page '' @ str_int (int i + 1) @ '' of '' @ str_int (int (length ps)))]"
  using assms by (simp add: length_stamp stamp_nth stamp_page_def Let_def overlay_footer)

lemma two_pages_second_stamped:
  "(case merge_page two_docs_world ([blank_page 612 792, blank_page 595 842] ! 1)
          (overlay_header_footer_pdf_bytes (width ([blank_page 612 792, blank_page 595 842] ! 1))
             (height ([blank_page 612 792, blank_page 595 842] ! 1)) ''H''
             (int 1 + 1) (int (length [blank_page 612 792, blank_page 595 842])))
    of None \<Rightarrow> [blank_page 612 792, blank_page 595 842] ! 1 | Some p' \<Rightarrow> p')
   = \<lparr>width = 595, height = 842,
       content = [SetFont ''Helvetica'' 10, DrawString 36 818 ''H'', SetFont ''Helvetica'' 9,
                  DrawRightString 559 24 ''Page 2 of 2'']\<rparr>"
  by code_simp

theorem footer_page_i_of_total_witness:
  "1 < length [blank_page 612 792, blank_page 595 842]
   \<and> stamp_header_footer_on_writer two_docs_world [blank_page 612 792, blank_page 595 842] ''H'' ! 1
       = \<lparr>width = 595, height = 842,
           content = [SetFont ''Helvetica'' 10, DrawString 36 818 ''H'', SetFont ''Helvetica'' 9,
                      DrawRightString 559 24 ''Page 2 of 2'']\<rparr>"
proof -
  have h: "1 < length [blank_page 612 792, blank_page 595 842]" by simp
  from footer_page_i_of_total[OF h, of two_docs_world "''H''"]
  have "stamp_header_footer_on_writer two_docs_world [blank_page 612 792, blank_page 595 842] ''H'' ! 1
     = (case merge_page two_docs_world ([blank_page 612 792, blank_page 595 842] ! 1)
          (overlay_header_footer_pdf_bytes (width ([blank_page 612 792, blank_page 595 842] ! 1))
             (height ([blank_page 612 792, blank_page 595 842] ! 1)) ''H''
             (int 1 + 1) (int (length [blank_page 612 792, blank_page 595 842])))
        of None \<Rightarrow> [blank_page 612 792, blank_page 595 842] ! 1 | Some p' \<Rightarrow> p')"
    by blast
  with h show ?thesis by (simp only: two_pages_second_stamped)
qed

text \<open>
  C7, the claim as stated: a page of zero width is not skipped. It is stamped like any
  other page, with an overlay of its own size, and the stamper returns nothing but the
  pages: there is no warning.
\<close>

theorem degenerate_page_is_stamped:
  "stamp_header_footer_on_writer two_docs_world [blank_page 0 792] ''H''
     = [\<lparr>width = 0, height = 792,
          content = [SetFont ''Helvetica'' 10, DrawString 36 768 ''H'', SetFont ''Helvetica'' 9,
                     DrawRightString (- 36) 24 ''Page 1 of 1'']\<rparr>]
   \<and> stamp_header_footer_on_writer two_docs_world [blank_page 0 792] ''H'' \<noteq> [blank_page 0 792]"
  by code_simp

text \<open>
  C7 (as amended). The stamper does not look at the geometry of a page and records no
  warning. A page is left unstamped when \<open>merge_page\<close> raises for it, whatever its size:
  the exception is swallowed, that page stays as it was, every page that merges is
  stamped, and the stamper returns all the pages.
\<close>

theorem failed_merge_is_isolated:
  assumes "i < length ps" and "j < length ps"
    and "merge_page w (ps ! i)
           (overlay_header_footer_pdf_bytes (width (ps ! i)) (height (ps ! i)) hdr
              (int i + 1) (int (length ps))) = None"
    and "merge_page w (ps ! j)
           (overlay_header_footer_pdf_bytes (width (ps ! j)) (height (ps ! j)) hdr
              (int j + 1) (int (length ps))) = Some q"
  shows "length (stamp_header_footer_on_writer w ps hdr) = length ps
       \<and> stamp_header_footer_on_writer w ps hdr ! i = ps ! i
       \<and> stamp_header_footer_on_writer w ps hdr ! j = q"
  using assms by (simp add: length_stamp stamp_nth stamp_page_def Let_def)

lemma fragile_first:
  "merge_page fragile_world ([blank_page 0 792, blank_page 612 792] ! 0)
     (overlay_header_footer_pdf_bytes (width ([blank_page 0 792, blank_page 612 792] ! 0))
        (height ([blank_page 0 792, blank_page 612 792] ! 0)) ''H''
        (int 0 + 1) (int (length [blank_page 0 792, blank_page 612 792]))) = None"
  by code_simp

lemma fragile_second:
  "merge_page fragile_world ([blank_page 0 792, blank_page 612 792] ! 1)
     (overlay_header_footer_pdf_bytes (width ([blank_page 0 792, blank_page 612 792] ! 1))
        (height ([blank_page 0 792, blank_page 612 792] ! 1)) ''H''
        (int 1 + 1) (int (length [blank_page 0 792, blank_page 612 792])))
   = Some \<lparr>width = 612, height = 792,
       content = [SetFont ''Helvetica'' 10, DrawString 36 768 ''H'', SetFont ''Helvetica'' 9,
                  DrawRightString 576 24 ''Page 2 of 2'']\<rparr>"
  by code_simp

theorem failed_merge_is_isolated_witness:
  "0 < length [blank_page 0 792, blank_page 612 792]
   \<and> 1 < length [blank_page 0 792, blank_page 612 792]
   \<and> stamp_header_footer_on_writer fragile_world [blank_page 0 792, blank_page 612 792] ''H'' ! 0
       = [blank_page 0 792, blank_page 612 792] ! 0
   \<and> stamp_header_footer_on_writer fragile_world [blank_page 0 792, blank_page 612 792] ''H'' ! 1
       = \<lparr>width = 612, height = 792,
          content = [SetFont ''Helvetica'' 10, DrawString 36 768 ''H'', SetFont ''Helvetica'' 9,
                     DrawRightString 576 24 ''Page 2 of 2'']\<rparr>"
proof -
  have h0: "0 < length [blank_page 0 792, blank_page 612 792]"
    and h1: "1 < length [blank_page 0 792, blank_page 612 792]" by simp_all
  from failed_merge_is_isolated[OF h0 h1 fragile_first fragile_second] h0 h1
  show ?thesis by blast
qed

section \<open>The assembled document\<close>

lemma add_files_pages:
  "add_files w zs wr = Inr wr' \<Longrightarrow> pages wr' = pages wr @ source_pages w (map fst zs)"
proof (induction zs arbitrary: wr)
  case Nil
  then show ?case by (simp add: source_pages_def)
next
  case (Cons z zs)
  obtain f s where z: "z = (f, s)" by (cases z)
  from Cons.prems z obtain ps where ps: "PdfReader w f = Inr ps"
    by (auto split: sum.splits)
  define wr1 where "wr1 = wr\<lparr>pages := pages wr @ ps\<rparr>"
  define wr2 where "wr2 = (if add_outline_item w (safe_basename f) (s - 1)
                      then wr1\<lparr>outline := outline wr1 @ [(safe_basename f, s - 1)]\<rparr>
                      else wr1)"
  have p2: "pages wr2 = pages wr @ ps" by (simp add: wr2_def wr1_def)
  from Cons.prems have "add_files w zs wr2 = Inr wr'"
    by (auto simp: z ps Let_def wr2_def wr1_def split: if_splits)
  from Cons.IH[OF this] p2 show ?case
    by (simp add: z source_pages_def ps)
qed

lemma count_loop_sum:
  "count_loop w fs = Inr pcs \<Longrightarrow> sum_list pcs = int (length (source_pages w fs))"
  by (induction fs arbitrary: pcs)
     (auto simp: count_pages_def source_pages_def split: sum.splits)


text \<open>
  C10. In a successful run the document written to the output path is the stamper's
  result on the TOC pages followed by the source pages: the TOC pages, of which there is
  at least one, are stamped with the rest and counted in the total. Every page of the
  document, at position \<open>i\<close> counted from 0, is what \<open>merge_page\<close> makes of the assembled
  page at that position and of the overlay of that page's size whose one right-aligned
  string is "Page \<open>i + 1\<close> of \<open>total\<close>", \<open>total\<close> being the TOC pages plus all source pages.
  The first positions hold the TOC pages, which are of letter size; so the first page of
  the document is the first TOC page merged with the overlay "Page 1 of \<open>total\<close>".
\<close>

theorem toc_pages_are_stamped:
  assumes "merge_pdfs_with_toc w disk dir out hdr = (disk', Inr r)"
  shows "\<exists>tocp doc.
       build_toc_pdf_bytes default_geometry (make_toc_entries (files r) (start_pages r))
         = Inr (tocp, toc_pages r)
     \<and> 0 < toc_pages r \<and> int (length tocp) = toc_pages r
     \<and> disk' out = Some doc
     \<and> pages doc = stamp_header_footer_on_writer w (tocp @ source_pages w (files r)) hdr
     \<and> int (length (pages doc)) = total_pages r
     \<and> total_pages r = toc_pages r + sum_list (page_counts r)
     \<and> pages doc ! 0
         = (case merge_page w (tocp ! 0)
                  (overlay_header_footer_pdf_bytes 612 792 hdr 1 (total_pages r))
            of None \<Rightarrow> tocp ! 0 | Some p' \<Rightarrow> p')
     \<and> length (pages doc) = length (tocp @ source_pages w (files r))
     \<and> (\<forall>i < length (tocp @ source_pages w (files r)).
           pages doc ! i
             = (case merge_page w ((tocp @ source_pages w (files r)) ! i)
                      (overlay_header_footer_pdf_bytes
                         (width ((tocp @ source_pages w (files r)) ! i))
                         (height ((tocp @ source_pages w (files r)) ! i))
                         hdr (int i + 1) (total_pages r))
                of None \<Rightarrow> (tocp @ source_pages w (files r)) ! i | Some p' \<Rightarrow> p')
         \<and> filter is_right_string
              (content (overlay_header_footer_pdf_bytes
                         (width ((tocp @ source_pages w (files r)) ! i))
                         (height ((tocp @ source_pages w (files r)) ! i))
                         hdr (int i + 1) (total_pages r)))
             = [DrawRightString (width ((tocp @ source_pages w (files r)) ! i) - 36) 24
                  (''Page '' @ str_int (int i + 1) @ '' of '' @ str_int (total_pages r))])
     \<and> (\<forall>i < length tocp.
           (tocp @ source_pages w (files r)) ! i = tocp ! i
         \<and> width (tocp ! i) = 612 \<and> height (tocp ! i) = 792)"
proof -
  define fs where "fs = list_pdfs_in_folder w dir"
  from merge_Inr[OF assms] obtain pcs plan wr where
    ne: "fs \<noteq> []"
    and cnt: "count_loop w fs = Inr pcs"
    and res: "resolve_pagination (build_toc_pdf_bytes default_geometry) fs pcs = Inr plan"
    and add: "add_files w (zip fs (plan_starts plan))
          \<lparr>pages = plan_toc_bytes plan, outline = []\<rparr> = Inr wr"
    and disk': "disk' = disk(out \<mapsto> wr\<lparr>pages := stamp_header_footer_on_writer w (pages wr) hdr\<rparr>)"
    and r: "r = \<lparr>folder = dir, output_path = out, header_text = hdr,
             files = fs, page_counts = pcs,
             toc_pages = plan_toc_pages plan, start_pages = plan_starts plan,
             total_pages = int (length (stamp_header_footer_on_writer w (pages wr) hdr))\<rparr>"
    unfolding fs_def by (elim exE conjE)
  from count_loop_Inr[OF cnt] have len: "length pcs = length fs" by simp
  define T where "T = toc_page_count 45 (map (\<lambda>f. (safe_basename f, 1::int)) fs)"
  define E where "E = make_toc_entries fs (compute_starts (T + 1) pcs)"
  define tocp where "tocp = map (toc_page default_geometry 45 E) [0..<nat T]"
  define asm where "asm = tocp @ source_pages w fs"
  from res have plan: "plan = \<lparr>plan_toc_bytes = tocp, plan_toc_pages = T,
      plan_starts = compute_starts (T + 1) pcs, plan_toc_entries = E\<rparr>"
    unfolding resolve_build[OF lines_per_page_default len] Let_def tocp_def E_def T_def by simp
  have T1: "1 \<le> T" unfolding T_def by (rule toc_page_count_ge_1)
  have ltoc: "int (length tocp) = T" using T1 by (simp add: tocp_def)
  have "length E = length (map (\<lambda>f. (safe_basename f, 1::int)) fs)"
    by (simp add: E_def length_make_toc_entries length_compute_starts len)
  then have "toc_page_count 45 E = T" unfolding T_def by (rule toc_page_count_length)
  then have lay: "build_toc_pdf_bytes default_geometry E = Inr (tocp, T)"
    by (simp add: build_toc_Inr[OF lines_per_page_default] tocp_def)
  have "map fst (zip fs (plan_starts plan)) = fs"
    by (simp add: plan length_compute_starts len)
  with add_files_pages[OF add] have pw: "pages wr = asm"
    by (simp add: plan asm_def)
  define doc where "doc = wr\<lparr>pages := stamp_header_footer_on_writer w (pages wr) hdr\<rparr>"
  have d1: "disk' out = Some doc" by (simp add: disk' doc_def)
  have d2: "pages doc = stamp_header_footer_on_writer w asm hdr"
    by (simp add: doc_def pw)
  have tot: "total_pages r = int (length asm)"
    by (simp add: r pw length_stamp)
  have lasm: "length asm = length tocp + length (source_pages w fs)"
    by (simp add: asm_def)
  have d3: "int (length (pages doc)) = total_pages r"
    by (simp add: d2 tot length_stamp)
  have d4: "total_pages r = T + sum_list pcs"
    using tot lasm ltoc count_loop_sum[OF cnt] by simp
  have d6: "length (pages doc) = length asm"
    by (simp add: d2 length_stamp)
  have every: "pages doc ! i
             = (case merge_page w (asm ! i)
                      (overlay_header_footer_pdf_bytes (width (asm ! i)) (height (asm ! i))
                         hdr (int i + 1) (total_pages r))
                of None \<Rightarrow> asm ! i | Some p' \<Rightarrow> p')
         \<and> filter is_right_string
              (content (overlay_header_footer_pdf_bytes (width (asm ! i)) (height (asm ! i))
                         hdr (int i + 1) (total_pages r)))
             = [DrawRightString (width (asm ! i) - 36) 24
                  (''Page '' @ str_int (int i + 1) @ '' of '' @ str_int (total_pages r))]"
    if "i < length asm" for i
    unfolding d2 stamp_nth[OF that] stamp_page_def Let_def tot
    by (simp add: overlay_footer)
  have tocs: "asm ! i = tocp ! i \<and> width (tocp ! i) = 612 \<and> height (tocp ! i) = 792"
    if "i < length tocp" for i
  proof -
    from that have "i < nat T" by (simp add: tocp_def)
    then have "tocp ! i = toc_page default_geometry 45 E i" by (simp add: tocp_def)
    then show ?thesis using that
      by (simp add: asm_def nth_append toc_page_def default_geometry_def)
  qed
  have pos: "0 < length tocp" "0 < length asm" using T1 ltoc lasm by auto
  have d5: "pages doc ! 0
         = (case merge_page w (tocp ! 0)
                  (overlay_header_footer_pdf_bytes 612 792 hdr 1 (total_pages r))
            of None \<Rightarrow> tocp ! 0 | Some p' \<Rightarrow> p')"
  proof -
    from tocs[OF pos(1)] have e0: "asm ! 0 = tocp ! 0"
      and sz: "width (tocp ! 0) = 612" "height (tocp ! 0) = 792" by simp_all
    from every[OF pos(2)] show ?thesis unfolding e0 sz by simp
  qed
  have eqs: "files r = fs" "start_pages r = compute_starts (T + 1) pcs" "toc_pages r = T"
    "page_counts r = pcs"
    by (simp_all add: r plan)
  have a1: "build_toc_pdf_bytes default_geometry (make_toc_entries (files r) (start_pages r))
         = Inr (tocp, toc_pages r)"
    using lay by (simp add: eqs E_def)
  have a2: "0 < toc_pages r" "int (length tocp) = toc_pages r"
    using T1 ltoc by (simp_all add: eqs)
  have a3: "total_pages r = toc_pages r + sum_list (page_counts r)"
    using d4 by (simp add: eqs)
  have asm_r: "tocp @ source_pages w (files r) = asm"
    by (simp add: asm_def eqs)
  have all_every: "\<forall>i < length asm.
           pages doc ! i
             = (case merge_page w (asm ! i)
                      (overlay_header_footer_pdf_bytes (width (asm ! i)) (height (asm ! i))
                         hdr (int i + 1) (total_pages r))
                of None \<Rightarrow> asm ! i | Some p' \<Rightarrow> p')
         \<and> filter is_right_string
              (content (overlay_header_footer_pdf_bytes (width (asm ! i)) (height (asm ! i))
                         hdr (int i + 1) (total_pages r)))
             = [DrawRightString (width (asm ! i) - 36) 24
                  (''Page '' @ str_int (int i + 1) @ '' of '' @ str_int (total_pages r))]"
    using every by (intro allI impI)
  have all_tocs: "\<forall>i < length tocp.
           asm ! i = tocp ! i \<and> width (tocp ! i) = 612 \<and> height (tocp ! i) = 792"
    using tocs by (intro allI impI)
  show ?thesis
    apply (rule exI[of _ tocp], rule exI[of _ doc])
    unfolding asm_r
    by (intro conjI; fact)
qed

lemma two_docs_first_page:
  "map_option (\<lambda>d. filter is_right_string (content (pages d ! 0)))
     (fst (merge_pdfs_with_toc two_docs_world Map.empty ''docs'' ''out.pdf'' ''H'') ''out.pdf'')
   = Some [DrawRightString 558 700 ''2'', DrawRightString 558 686 ''4'',
           DrawRightString 576 24 ''Page 1 of 4'']"
  by code_simp

lemma two_docs_footers:
  "map_option (\<lambda>d. map (\<lambda>p. last (content p)) (pages d))
     (fst (merge_pdfs_with_toc two_docs_world Map.empty ''docs'' ''out.pdf'' ''H'') ''out.pdf'')
   = Some [DrawRightString 576 24 ''Page 1 of 4'', DrawRightString 576 24 ''Page 2 of 4'',
           DrawRightString 559 24 ''Page 3 of 4'', DrawRightString (- 36) 24 ''Page 4 of 4'']"
  by code_simp

theorem toc_pages_are_stamped_witness:
  "merge_pdfs_with_toc two_docs_world Map.empty ''docs'' ''out.pdf'' ''H''
     = (fst (merge_pdfs_with_toc two_docs_world Map.empty ''docs'' ''out.pdf'' ''H''), Inr two_docs_result)
   \<and> total_pages two_docs_result = toc_pages two_docs_result + sum_list (page_counts two_docs_result)
   \<and> map_option (\<lambda>d. filter is_right_string (content (pages d ! 0)))
       (fst (merge_pdfs_with_toc two_docs_world Map.empty ''docs'' ''out.pdf'' ''H'') ''out.pdf'')
     = Some [DrawRightString 558 700 ''2'', DrawRightString 558 686 ''4'',
             DrawRightString 576 24 ''Page 1 of 4'']
   \<and> map_option (\<lambda>d. map (\<lambda>p. last (content p)) (pages d))
       (fst (merge_pdfs_with_toc two_docs_world Map.empty ''docs'' ''out.pdf'' ''H'') ''out.pdf'')
     = Some [DrawRightString 576 24 ''Page 1 of 4'', DrawRightString 576 24 ''Page 2 of 4'',
             DrawRightString 559 24 ''Page 3 of 4'', DrawRightString (- 36) 24 ''Page 4 of 4'']"
proof -
  have run: "merge_pdfs_with_toc two_docs_world Map.empty ''docs'' ''out.pdf'' ''H''
     = (fst (merge_pdfs_with_toc two_docs_world Map.empty ''docs'' ''out.pdf'' ''H''), Inr two_docs_result)"
    by (simp add: prod_eq_iff two_docs_run)
  from toc_pages_are_stamped[OF run]
  have "total_pages two_docs_result = toc_pages two_docs_result + sum_list (page_counts two_docs_result)"
    by blast
  with run two_docs_first_page two_docs_footers show ?thesis by blast
qed

end
